theory Spec2Isabelle
  imports Main
begin

section \<open>Python strings\<close>

text \<open>
  A Python \<open>str\<close> is a sequence of Unicode code points; \<open>len\<close>, slicing and
  \<open>ljust\<close> count code points. A string is therefore modelled as a list of code point
  numbers, and an ASCII literal of the source is written \<open>of_ascii ''...''\<close>.
\<close>

type_synonym pystr = "nat list"

definition of_ascii :: "string \<Rightarrow> pystr" where
  "of_ascii s = map of_char s"

text \<open>The pad character \<open>'_'\<close> (U+005F).\<close>

definition pad :: nat where
  "pad = 95"

text \<open>
  \<open>str.isspace\<close> for one code point: the white space table of the Python runtime
  (U+0009..U+000D, U+001C..U+0020, U+0085, U+00A0, U+1680, U+2000..U+200A, U+2028, U+2029,
  U+202F, U+205F, U+3000). \<open>str.strip()\<close> and \<open>str.split()\<close> without arguments use it.
\<close>

definition isspace :: "nat \<Rightarrow> bool" where
  "isspace c = ((9 \<le> c \<and> c \<le> 13) \<or> (28 \<le> c \<and> c \<le> 32) \<or> c = 133 \<or> c = 160
     \<or> c = 5760 \<or> (8192 \<le> c \<and> c \<le> 8202) \<or> c = 8232 \<or> c = 8233 \<or> c = 8239
     \<or> c = 8287 \<or> c = 12288)"

definition strip :: "pystr \<Rightarrow> pystr" where
  "strip s = rev (dropWhile isspace (rev (dropWhile isspace s)))"

text \<open>
  \<open>str.split()\<close>: the maximal runs of characters that are not white space, in order.
  \<open>cur\<close> is the run being read.
\<close>

fun split_run :: "pystr \<Rightarrow> pystr \<Rightarrow> pystr list" where
  "split_run cur [] = (if cur = [] then [] else [cur])"
| "split_run cur (c # cs) =
     (if isspace c then (if cur = [] then split_run [] cs else cur # split_run [] cs)
      else split_run (cur @ [c]) cs)"

definition py_split :: "pystr \<Rightarrow> pystr list" where
  "py_split s = split_run [] s"

text \<open>
  \<open>str.upper()\<close> maps every code point to its full uppercase mapping, which may be
  several code points (\<open>'\<ss>'.upper() == 'SS'\<close>). The mapping is written out for
  U+0000..U+00FF; the rest of the runtime's Unicode table is the parameter \<open>ext\<close>.
\<close>

definition upper_cp :: "(nat \<Rightarrow> nat list) \<Rightarrow> nat \<Rightarrow> nat list" where
  "upper_cp ext c =
     (if 97 \<le> c \<and> c \<le> 122 then [c - 32]
      else if c = 181 then [924]
      else if c = 223 then [83, 83]
      else if 224 \<le> c \<and> c \<le> 254 \<and> c \<noteq> 247 then [c - 32]
      else if c = 255 then [376]
      else if c < 256 then [c]
      else ext c)"

definition upper :: "(nat \<Rightarrow> nat list) \<Rightarrow> pystr \<Rightarrow> pystr" where
  "upper ext s = concat (map (upper_cp ext) s)"

text \<open>
  \<open>s[:k]\<close> (a negative \<open>k\<close> counts from the end), \<open>c * k\<close> (empty when \<open>k \<le> 0\<close>),
  \<open>s.ljust(w, c)\<close> (\<open>s\<close> itself when \<open>w \<le> len(s)\<close>) and \<open>range(n)\<close>.
\<close>

definition slice_to :: "pystr \<Rightarrow> int \<Rightarrow> pystr" where
  "slice_to s k = (if k < 0 then take (nat (int (length s) + k)) s else take (nat k) s)"

definition repeat :: "nat \<Rightarrow> int \<Rightarrow> pystr" where
  "repeat c k = replicate (nat k) c"

definition ljust :: "pystr \<Rightarrow> int \<Rightarrow> nat \<Rightarrow> pystr" where
  "ljust s w c = s @ replicate (nat w - length s) c"

definition py_range :: "int \<Rightarrow> nat list" where
  "py_range n = [0..<nat n]"

section \<open>The SKU building helpers\<close>

text \<open>
  The loop of \<open>first_letters_of_words\<close>: for each index of \<open>range(num_words)\<close> one
  group is appended to \<open>out\<close>.
\<close>

fun letters_loop :: "(nat \<Rightarrow> nat list) \<Rightarrow> pystr list \<Rightarrow> int \<Rightarrow> nat list \<Rightarrow> pystr list \<Rightarrow> pystr list" where
  "letters_loop ext parts letters_each [] out = out"
| "letters_loop ext parts letters_each (i # is) out =
     (if i < length parts
      then (let part = parts ! i;
                take1 = upper ext (slice_to part letters_each);
                take2 = ljust take1 letters_each pad
            in letters_loop ext parts letters_each is (out @ [take2]))
      else letters_loop ext parts letters_each is (out @ [repeat pad letters_each]))"

text \<open>The group that the iteration for index \<open>i\<close> appends.\<close>

definition word_group :: "(nat \<Rightarrow> nat list) \<Rightarrow> pystr list \<Rightarrow> int \<Rightarrow> nat \<Rightarrow> pystr" where
  "word_group ext parts letters_each i =
     (if i < length parts
      then ljust (upper ext (slice_to (parts ! i) letters_each)) letters_each pad
      else repeat pad letters_each)"

definition first_letters_of_words :: "(nat \<Rightarrow> nat list) \<Rightarrow> pystr \<Rightarrow> int \<Rightarrow> int \<Rightarrow> pystr" where
  "first_letters_of_words ext s num_words letters_each =
     (if s = [] then concat (map (\<lambda>_. repeat pad letters_each) (py_range num_words))
      else (let parts = filter (\<lambda>p. p \<noteq> []) (py_split (strip s))
            in concat (letters_loop ext parts letters_each (py_range num_words) [])))"

definition first_n_letters :: "(nat \<Rightarrow> nat list) \<Rightarrow> pystr \<Rightarrow> int \<Rightarrow> pystr" where
  "first_n_letters ext s n =
     (if s = [] then repeat pad n
      else (let s' = upper ext (strip s);
                out = slice_to s' n
            in if int (length out) < n then ljust out n pad else out))"

datatype py_error = IndexError | OverflowError

text \<open>
  \<open>str(size)[0] if size is not None else '_'\<close>: \<open>size\<close> is a string or \<open>None\<close>, and
  indexing the empty string raises \<open>IndexError\<close>.
\<close>

definition size_char_of :: "pystr option \<Rightarrow> py_error + nat" where
  "size_char_of size_v =
     (case size_v of
        None \<Rightarrow> Inr pad
      | Some s \<Rightarrow> (case s of [] \<Rightarrow> Inl IndexError | c # _ \<Rightarrow> Inr c))"

definition build_sku ::
  "(nat \<Rightarrow> nat list) \<Rightarrow> pystr \<Rightarrow> pystr \<Rightarrow> pystr \<Rightarrow> pystr \<Rightarrow> pystr option \<Rightarrow> py_error + pystr" where
  "build_sku ext product_type collection product_name color size_v =
     (let pt = first_letters_of_words ext product_type 2 1;
          coll = first_letters_of_words ext collection 2 1;
          pname = first_n_letters ext product_name 3;
          col = first_letters_of_words ext color 2 1
      in case size_char_of size_v of
           Inl e \<Rightarrow> Inl e
         | Inr sc \<Rightarrow>
             (let sku_body = pt @ coll @ pname @ col;
                  sku_body = (if length sku_body < 9 then ljust sku_body 9 pad
                              else if length sku_body > 9 then slice_to sku_body 9
                              else sku_body)
              in Inr (sku_body @ [sc])))"

section \<open>The store and the two POST handlers\<close>

text \<open>
  \<open>ProductType\<close>, \<open>Collection\<close> and \<open>Color\<close> have the same columns (\<open>id\<close>, \<open>name\<close>,
  \<open>user_id\<close>); \<open>SKURecord\<close> has \<open>id\<close>, \<open>sku\<close>, \<open>product_name\<close>, \<open>user_id\<close>. A table is the
  list of its rows in insertion order. The database is taken to be available: a failure
  of the storage itself is outside this model.
\<close>

record vocab_row =
  vr_id :: int
  vr_name :: pystr
  vr_user_id :: int

record sku_row =
  sr_id :: int
  sr_sku :: pystr
  sr_product_name :: pystr
  sr_user_id :: int

record store =
  product_types :: "vocab_row list"
  collections :: "vocab_row list"
  colors :: "vocab_row list"
  sku_records :: "sku_row list"

text \<open>The integer primary key given to a new row: one more than the largest in use.\<close>

definition next_id :: "int list \<Rightarrow> int" where
  "next_id ids = fold max ids 0 + 1"

text \<open>What a handler answers: the message it flashes before redirecting, or the
  exception that leaves it.\<close>

datatype outcome =
    Warning_enter_value
  | Danger_unknown_type
  | Success_added
  | Warning_enter_product_name
  | Success_generated pystr
  | Unhandled py_error

record create_form =
  cf_what :: "pystr option"
  cf_value :: "pystr option"

text \<open>\<open>create_data\<close>, method POST, for the logged-in user \<open>uid\<close>.\<close>

definition create_data_post :: "int \<Rightarrow> create_form \<Rightarrow> store \<Rightarrow> outcome \<times> store" where
  "create_data_post uid form st =
     (let val = strip (case cf_value form of None \<Rightarrow> [] | Some v \<Rightarrow> v) in
      if val = [] then (Warning_enter_value, st)
      else if cf_what form = Some (of_ascii ''product_type'')
      then (Success_added,
            st\<lparr>product_types := product_types st @
              [\<lparr>vr_id = next_id (map vr_id (product_types st)), vr_name = val, vr_user_id = uid\<rparr>]\<rparr>)
      else if cf_what form = Some (of_ascii ''collection'')
      then (Success_added,
            st\<lparr>collections := collections st @
              [\<lparr>vr_id = next_id (map vr_id (collections st)), vr_name = val, vr_user_id = uid\<rparr>]\<rparr>)
      else if cf_what form = Some (of_ascii ''color'')
      then (Success_added,
            st\<lparr>colors := colors st @
              [\<lparr>vr_id = next_id (map vr_id (colors st)), vr_name = val, vr_user_id = uid\<rparr>]\<rparr>)
      else (Danger_unknown_type, st))"

text \<open>
  The queries of the GET branches: \<open>filter_by(user_id=current_user.id).all()\<close> on a
  vocabulary table, and the same on \<open>SKURecord\<close> with \<open>order_by(SKURecord.id.desc())\<close>
  and \<open>limit(10)\<close>.
\<close>

definition list_vocabulary :: "int \<Rightarrow> vocab_row list \<Rightarrow> vocab_row list" where
  "list_vocabulary uid rows = filter (\<lambda>r. vr_user_id r = uid) rows"

definition list_recent :: "int \<Rightarrow> store \<Rightarrow> sku_row list" where
  "list_recent uid st =
     take 10 (sort_key (\<lambda>r. - sr_id r) (filter (\<lambda>r. sr_user_id r = uid) (sku_records st)))"

record sku_form =
  sf_product_name :: "pystr option"
  sf_product_type :: "pystr option"
  sf_collection :: "pystr option"
  sf_color :: "pystr option"
  sf_size :: "pystr option"

text \<open>
  The database is the default one, sqlite: an integer bound to a query is a signed
  64-bit \<open>INTEGER\<close>, and the driver raises \<open>OverflowError\<close> for any other.
\<close>

definition int64 :: "int \<Rightarrow> bool" where
  "int64 i = (- 9223372036854775808 \<le> i \<and> i \<le> 9223372036854775807)"

text \<open>
  One of the three \<open>try\<close> blocks. The builtin \<open>int()\<close> is the parameter \<open>py_int\<close>,
  \<open>None\<close> standing for the \<open>ValueError\<close> that the handler catches. An absent or empty
  field is falsy and is not looked up. The \<open>OverflowError\<close> of the query is not among
  the exceptions caught, and leaves the handler.
\<close>

definition resolve_row ::
  "(pystr \<Rightarrow> int option) \<Rightarrow> int \<Rightarrow> vocab_row list \<Rightarrow> pystr option \<Rightarrow> py_error + vocab_row option" where
  "resolve_row py_int uid rows field =
     (case field of
        None \<Rightarrow> Inr None
      | Some s \<Rightarrow>
          if s = [] then Inr None
          else (case py_int s of
                  None \<Rightarrow> Inr None
                | Some i \<Rightarrow>
                    if int64 i then Inr (find (\<lambda>r. vr_id r = i \<and> vr_user_id r = uid) rows)
                    else Inl OverflowError))"

text \<open>\<open>x.name if x else ''\<close>.\<close>

definition name_or_empty :: "vocab_row option \<Rightarrow> pystr" where
  "name_or_empty x = (case x of None \<Rightarrow> [] | Some r \<Rightarrow> vr_name r)"

text \<open>\<open>generate_sku\<close>, method POST, for the logged-in user \<open>uid\<close>. An exception leaves
  the handler before the commit, so the store is as it was.\<close>

definition generate_sku_post ::
  "(nat \<Rightarrow> nat list) \<Rightarrow> (pystr \<Rightarrow> int option) \<Rightarrow> int \<Rightarrow> sku_form \<Rightarrow> store \<Rightarrow> outcome \<times> store" where
  "generate_sku_post ext py_int uid form st =
     (let product_name_text = strip (case sf_product_name form of None \<Rightarrow> [] | Some v \<Rightarrow> v) in
      if product_name_text = [] then (Warning_enter_product_name, st)
      else
        (case resolve_row py_int uid (product_types st) (sf_product_type form) of
           Inl e \<Rightarrow> (Unhandled e, st)
         | Inr ptype \<Rightarrow>
        (case resolve_row py_int uid (collections st) (sf_collection form) of
           Inl e \<Rightarrow> (Unhandled e, st)
         | Inr coll \<Rightarrow>
        (case resolve_row py_int uid (colors st) (sf_color form) of
           Inl e \<Rightarrow> (Unhandled e, st)
         | Inr color \<Rightarrow>
        (let ptype_text = name_or_empty ptype;
             coll_text = name_or_empty coll;
             color_text = name_or_empty color
         in case build_sku ext ptype_text coll_text product_name_text color_text (sf_size form) of
              Inl e \<Rightarrow> (Unhandled e, st)
            | Inr sku \<Rightarrow>
                (Success_generated sku,
                 st\<lparr>sku_records := sku_records st @
                   [\<lparr>sr_id = next_id (map sr_id (sku_records st)), sr_sku = sku,
                     sr_product_name = product_name_text, sr_user_id = uid\<rparr>]\<rparr>))))))"

text \<open>
  A reference that names no row of the requesting user: the field is present and not
  empty, and its text is not a well-formed id, or no row of the table has that id, or the
  row with that id belongs to another user.
\<close>

definition dangling :: "(pystr \<Rightarrow> int option) \<Rightarrow> int \<Rightarrow> vocab_row list \<Rightarrow> pystr \<Rightarrow> bool" where
  "dangling py_int uid rows s =
     (case py_int s of
        None \<Rightarrow> True
      | Some i \<Rightarrow> list_all (\<lambda>r. vr_id r \<noteq> i \<or> vr_user_id r \<noteq> uid) rows)"

text \<open>
  The text the composer is to receive for a field: the empty string for a dangling
  reference, the name of the row found otherwise.
\<close>

definition field_text :: "(pystr \<Rightarrow> int option) \<Rightarrow> int \<Rightarrow> vocab_row list \<Rightarrow> pystr option \<Rightarrow> pystr" where
  "field_text py_int uid rows field =
     (case field of
        None \<Rightarrow> []
      | Some s \<Rightarrow>
          if dangling py_int uid rows s then []
          else (case resolve_row py_int uid rows field of
                  Inl e \<Rightarrow> []
                | Inr x \<Rightarrow> name_or_empty x))"

text \<open>A field whose id, when it is looked up, is one that the database can bind.\<close>

definition bindable :: "(pystr \<Rightarrow> int option) \<Rightarrow> pystr option \<Rightarrow> bool" where
  "bindable py_int field =
     (case field of
        None \<Rightarrow> True
      | Some s \<Rightarrow> s = [] \<or> (case py_int s of None \<Rightarrow> True | Some i \<Rightarrow> int64 i))"

text \<open>\<open>insertRecord\<close> and \<open>insertVocabulary\<close> of the store contract: the row is appended
  to its table, and nothing else changes.\<close>

definition insert_record :: "sku_row \<Rightarrow> store \<Rightarrow> store" where
  "insert_record r st = st\<lparr>sku_records := sku_records st @ [r]\<rparr>"

definition insert_vocabulary :: "pystr \<Rightarrow> vocab_row \<Rightarrow> store \<Rightarrow> store" where
  "insert_vocabulary category r st =
     (if category = of_ascii ''product_type'' then st\<lparr>product_types := product_types st @ [r]\<rparr>
      else if category = of_ascii ''collection'' then st\<lparr>collections := collections st @ [r]\<rparr>
      else if category = of_ascii ''color'' then st\<lparr>colors := colors st @ [r]\<rparr>
      else st)"

definition vocabulary :: "pystr \<Rightarrow> store \<Rightarrow> vocab_row list" where
  "vocabulary category st =
     (if category = of_ascii ''product_type'' then product_types st
      else if category = of_ascii ''collection'' then collections st
      else if category = of_ascii ''color'' then colors st
      else [])"

definition categories :: "pystr list" where
  "categories = [of_ascii ''product_type'', of_ascii ''collection'', of_ascii ''color'']"

definition empty_store :: store where
  "empty_store = \<lparr>product_types = [], collections = [], colors = [], sku_records = []\<rparr>"

text \<open>A store and forms, for concrete inputs.\<close>

definition st1 :: store where
  "st1 = \<lparr>product_types = [\<lparr>vr_id = 1, vr_name = of_ascii ''Shirt'', vr_user_id = 2\<rparr>],
          collections = [\<lparr>vr_id = 1, vr_name = of_ascii ''Summer'', vr_user_id = 1\<rparr>],
          colors = [], sku_records = []\<rparr>"

definition form1 :: sku_form where
  "form1 = \<lparr>sf_product_name = Some (of_ascii '' Polo''), sf_product_type = Some (of_ascii ''1''),
            sf_collection = Some (of_ascii ''x1''), sf_color = Some (of_ascii ''7''),
            sf_size = Some (of_ascii ''3'')\<rparr>"

definition form2 :: sku_form where
  "form2 = \<lparr>sf_product_name = Some (of_ascii ''Polo''),
            sf_product_type = Some (of_ascii ''9223372036854775808''),
            sf_collection = None, sf_color = None, sf_size = Some (of_ascii ''3'')\<rparr>"

definition cform1 :: create_form where
  "cform1 = \<lparr>cf_what = Some (of_ascii ''color''), cf_value = Some (of_ascii '' Sky Blue '')\<rparr>"

text \<open>A parser of plain ASCII digit strings, used as \<open>py_int\<close> on concrete inputs.\<close>

fun digits_value :: "int \<Rightarrow> pystr \<Rightarrow> int option" where
  "digits_value acc [] = Some acc"
| "digits_value acc (c # cs) =
     (if 48 \<le> c \<and> c \<le> 57 then digits_value (10 * acc + int (c - 48)) cs else None)"

definition ascii_int :: "pystr \<Rightarrow> int option" where
  "ascii_int s = (if s = [] then None else digits_value 0 s)"

section \<open>The encoders and the composer as the specification words them\<close>

text \<open>
  The definitions of this section follow the prose of the specification, not the source;
  they are what the source functions are compared with.
\<close>

definition right_pad :: "pystr \<Rightarrow> nat \<Rightarrow> pystr" where
  "right_pad s n = s @ replicate (n - length s) pad"

definition words_of :: "pystr \<Rightarrow> pystr list" where
  "words_of label = filter (\<lambda>w. w \<noteq> []) (py_split (strip label))"

text \<open>
  Mode A: no words give \<open>wordCount\<close> groups of pad characters; otherwise the word at
  index \<open>i\<close> gives its first \<open>lettersEach\<close> characters, uppercased and right-padded, and
  a missing word gives \<open>lettersEach\<close> pad characters.
\<close>

definition encode_words_spec :: "(nat \<Rightarrow> nat list) \<Rightarrow> pystr \<Rightarrow> nat \<Rightarrow> nat \<Rightarrow> pystr" where
  "encode_words_spec ext label wordCount lettersEach =
     (if label = [] \<or> words_of label = []
      then concat (replicate wordCount (replicate lettersEach pad))
      else concat (map (\<lambda>i. if i < length (words_of label)
                             then right_pad (upper ext (take lettersEach (words_of label ! i))) lettersEach
                             else replicate lettersEach pad)
                       [0..<wordCount]))"

text \<open>
  Mode B: a label that is empty after trimming gives \<open>n\<close> pad characters; otherwise
  trim, uppercase, take the first \<open>n\<close> characters, right-pad.
\<close>

definition encode_prefix_spec :: "(nat \<Rightarrow> nat list) \<Rightarrow> pystr \<Rightarrow> nat \<Rightarrow> pystr" where
  "encode_prefix_spec ext label n =
     (if strip label = [] then replicate n pad
      else right_pad (take n (upper ext (strip label))) n)"

text \<open>
  The size character: the first character of the size's text, \<open>'_'\<close> when the size is
  absent. The composer is total and its result has 10 characters, so a text without a
  first character is taken as an absent size.
\<close>

definition size_character :: "pystr option \<Rightarrow> nat" where
  "size_character size_v =
     (case size_v of
        None \<Rightarrow> pad
      | Some s \<Rightarrow> (case s of [] \<Rightarrow> pad | c # _ \<Rightarrow> c))"

text \<open>
  The composition: the four fields encoded by mode A (2 words, 1 letter), mode B (3
  letters) and mode A again, the body brought to 9 characters, then the size character.
\<close>

definition compose_sku_spec ::
  "(nat \<Rightarrow> nat list) \<Rightarrow> pystr \<Rightarrow> pystr \<Rightarrow> pystr \<Rightarrow> pystr \<Rightarrow> pystr option \<Rightarrow> pystr" where
  "compose_sku_spec ext productType collection productName color size_v =
     (let body = encode_words_spec ext productType 2 1
                 @ encode_words_spec ext collection 2 1
                 @ encode_prefix_spec ext productName 3
                 @ encode_words_spec ext color 2 1;
          body9 = (if length body < 9 then right_pad body 9 else take 9 body)
      in body9 @ [size_character size_v])"

text \<open>The ASCII uppercase letters, and the ASCII letters.\<close>

definition ascii_upper :: "nat \<Rightarrow> bool" where
  "ascii_upper c = (65 \<le> c \<and> c \<le> 90)"

definition ascii_letter :: "nat \<Rightarrow> bool" where
  "ascii_letter c = ((65 \<le> c \<and> c \<le> 90) \<or> (97 \<le> c \<and> c \<le> 122))"

section \<open>Evaluation on concrete inputs\<close>

lemma replicate_numeral: "replicate (numeral k) x = x # replicate (pred_numeral k) x"
  by (simp add: numeral_eq_Suc)

lemmas eval_defs = replicate_numeral build_sku_def first_letters_of_words_def first_n_letters_def of_ascii_def
  strip_def py_split_def isspace_def upper_def upper_cp_def slice_to_def repeat_def ljust_def
  py_range_def pad_def size_char_of_def upt_conv_Cons

lemmas spec_defs = encode_words_spec_def encode_prefix_spec_def compose_sku_spec_def
  words_of_def right_pad_def size_character_def

section \<open>The loop of \<open>first_letters_of_words\<close>\<close>

lemma letters_loop_map:
  "letters_loop ext parts le idxs out = out @ map (word_group ext parts le) idxs"
  by (induction idxs arbitrary: out) (simp_all add: word_group_def Let_def)

lemma word_group_Nil: "word_group ext [] le = (\<lambda>_. repeat pad le)"
  by (simp add: fun_eq_iff word_group_def)

lemma first_letters_of_words_groups:
  "s \<noteq> [] \<Longrightarrow>
   first_letters_of_words ext s nw le = concat (map (word_group ext (words_of s) le) (py_range nw))"
  by (simp add: first_letters_of_words_def letters_loop_map words_of_def)

lemma strip_Nil: "strip [] = []"
  by (simp add: strip_def)

lemma words_of_Nil: "words_of [] = []"
  by (simp add: words_of_def strip_def py_split_def)

lemma first_letters_of_words_all_groups:
  "first_letters_of_words ext s nw le = concat (map (word_group ext (words_of s) le) (py_range nw))"
proof (cases "s = []")
  case True
  then show ?thesis
    by (simp add: first_letters_of_words_def words_of_Nil word_group_Nil)
next
  case False
  then show ?thesis by (rule first_letters_of_words_groups)
qed

lemma slice_to_take: "0 \<le> k \<Longrightarrow> slice_to s k = take (nat k) s"
  by (simp add: slice_to_def)

lemma ljust_right_pad: "ljust s w pad = right_pad s (nat w)"
  by (simp add: ljust_def right_pad_def)

lemma word_group_spec:
  assumes "0 \<le> le"
  shows "word_group ext ws le =
     (\<lambda>i. if i < length ws then right_pad (upper ext (take (nat le) (ws ! i))) (nat le)
          else replicate (nat le) pad)"
  using assms by (simp add: fun_eq_iff word_group_def slice_to_take ljust_right_pad repeat_def)

lemma indexed_groups:
  "map (\<lambda>i. if i < length ws then g (ws ! i) else d) [0..<n] =
   map g (take n ws) @ replicate (n - length ws) d"
proof (induction n)
  case 0
  then show ?case by simp
next
  case (Suc n)
  show ?case
  proof (cases "n < length ws")
    case True
    then show ?thesis using Suc by (simp add: take_Suc_conv_app_nth)
  next
    case False
    then have "Suc n - length ws = Suc (n - length ws)" by simp
    then show ?thesis using Suc False by (simp add: replicate_append_same)
  qed
qed

lemma first_letters_of_words_refines:
  assumes "0 \<le> le"
  shows "first_letters_of_words ext label wc le = encode_words_spec ext label (nat wc) (nat le)"
proof (cases "words_of label = []")
  case True
  then show ?thesis
    by (simp add: first_letters_of_words_all_groups encode_words_spec_def word_group_Nil
        repeat_def py_range_def map_replicate_const)
next
  case False
  then have "label \<noteq> []" using words_of_Nil by auto
  then show ?thesis using False
    by (simp add: first_letters_of_words_all_groups encode_words_spec_def
        word_group_spec [OF assms] py_range_def)
qed

lemma first_letters_of_words_prefix_of_words:
  assumes "0 \<le> le"
  shows "first_letters_of_words ext label wc le =
     concat (map (\<lambda>w. right_pad (upper ext (take (nat le) w)) (nat le)) (take (nat wc) (words_of label)))
     @ concat (replicate (nat wc - length (words_of label)) (replicate (nat le) pad))"
proof -
  have "map (word_group ext (words_of label) le) [0..<nat wc] =
      map (\<lambda>w. right_pad (upper ext (take (nat le) w)) (nat le)) (take (nat wc) (words_of label))
      @ replicate (nat wc - length (words_of label)) (replicate (nat le) pad)"
    unfolding word_group_spec [OF assms] by (rule indexed_groups)
  then show ?thesis
    by (simp add: first_letters_of_words_all_groups py_range_def)
qed

text \<open>
  C4. For every label and every \<open>wordCount \<ge> 1\<close>, \<open>lettersEach \<ge> 1\<close>,
  \<open>first_letters_of_words\<close> computes what the specification's algorithm for
  \<open>encode_words\<close> computes: pad groups only when the label is empty or has no words,
  otherwise per index the first \<open>lettersEach\<close> characters of the word, uppercased and
  right-padded, or a pad group where the word is missing. Only the first \<open>wordCount\<close>
  words are read. \<open>encode_words("Running Shoes", 2, 1) = "RS"\<close> and
  \<open>encode_words("Red", 2, 1) = "R_"\<close>.
\<close>

theorem first_letters_of_words_follows_spec:
  assumes "1 \<le> wordCount" and "1 \<le> lettersEach"
  shows "first_letters_of_words ext label wordCount lettersEach
           = encode_words_spec ext label (nat wordCount) (nat lettersEach)
       \<and> first_letters_of_words ext label wordCount lettersEach
           = concat (map (\<lambda>w. right_pad (upper ext (take (nat lettersEach) w)) (nat lettersEach))
                         (take (nat wordCount) (words_of label)))
             @ concat (replicate (nat wordCount - length (words_of label))
                                 (replicate (nat lettersEach) pad))
       \<and> first_letters_of_words ext (of_ascii ''Running Shoes'') 2 1 = of_ascii ''RS''
       \<and> first_letters_of_words ext (of_ascii ''Red'') 2 1 = of_ascii ''R_''"
proof -
  have le: "0 \<le> lettersEach" using assms by simp
  have a: "first_letters_of_words ext (of_ascii ''Running Shoes'') 2 1 = of_ascii ''RS''"
    by (simp add: eval_defs)
  have b: "first_letters_of_words ext (of_ascii ''Red'') 2 1 = of_ascii ''R_''"
    by (simp add: eval_defs)
  show ?thesis
    using first_letters_of_words_refines [OF le] first_letters_of_words_prefix_of_words [OF le] a b
    by blast
qed

theorem first_letters_of_words_follows_spec_witness:
  "first_letters_of_words (\<lambda>c. [c]) (of_ascii '' new york  city'') 2 3 = of_ascii ''NEWYOR''
   \<and> first_letters_of_words (\<lambda>c. [c]) (of_ascii ''ox'') 2 3 = of_ascii ''OX____''"
proof -
  have h: "(1::int) \<le> 2" "(1::int) \<le> 3" by simp_all
  have "encode_words_spec (\<lambda>c. [c]) (of_ascii '' new york  city'') (nat 2) (nat 3) = of_ascii ''NEWYOR''"
    by (simp add: eval_defs spec_defs)
  moreover have "encode_words_spec (\<lambda>c. [c]) (of_ascii ''ox'') (nat 2) (nat 3) = of_ascii ''OX____''"
    by (simp add: eval_defs spec_defs)
  ultimately show ?thesis
    using first_letters_of_words_follows_spec [OF h, of "\<lambda>c. [c]" "of_ascii '' new york  city''"]
      first_letters_of_words_follows_spec [OF h, of "\<lambda>c. [c]" "of_ascii ''ox''"]
    by simp
qed

text \<open>
  C10. A width of zero contributes no characters: with \<open>num_words = 0\<close> the result is
  empty for every label and every \<open>letters_each\<close>, and with \<open>letters_each = 0\<close> it is
  empty for every label and every \<open>num_words\<close>.
\<close>

theorem first_letters_of_words_width_zero:
  "first_letters_of_words ext s 0 letters_each = []
   \<and> first_letters_of_words ext s num_words 0 = []"
proof -
  have "word_group ext ws 0 = (\<lambda>_. [])" for ws
    by (simp add: fun_eq_iff word_group_def slice_to_def ljust_def repeat_def upper_def)
  then show ?thesis
    by (simp add: first_letters_of_words_all_groups py_range_def)
qed

section \<open>\<open>first_n_letters\<close>\<close>

lemma first_n_letters_refines:
  assumes "0 \<le> n"
  shows "first_n_letters ext label n = encode_prefix_spec ext label (nat n)"
proof (cases "label = []")
  case True
  then show ?thesis
    by (simp add: first_n_letters_def encode_prefix_spec_def strip_Nil repeat_def)
next
  case False
  show ?thesis
  proof (cases "strip label = []")
    case True
    then show ?thesis using False assms
      by (simp add: first_n_letters_def encode_prefix_spec_def upper_def slice_to_def ljust_def)
  next
    case nonempty: False
    then show ?thesis using False assms
      by (auto simp add: first_n_letters_def encode_prefix_spec_def Let_def slice_to_take
          ljust_right_pad right_pad_def)
  qed
qed

lemma length_right_pad: "length s \<le> n \<Longrightarrow> length (right_pad s n) = n"
  by (simp add: right_pad_def)

lemma length_encode_prefix_spec: "length (encode_prefix_spec ext label n) = n"
  by (simp add: encode_prefix_spec_def length_right_pad)

text \<open>
  C6. For every label and every \<open>n \<ge> 1\<close>, \<open>first_n_letters\<close> returns \<open>n\<close> pad
  characters when the label is empty after trimming, and otherwise the first \<open>n\<close>
  characters of the trimmed, uppercased label, right-padded with \<open>'_'\<close>; the result has
  exactly \<open>n\<close> characters. \<open>encode_prefix("ab", 3) = "AB_"\<close> and
  \<open>encode_prefix("abcdef", 3) = "ABC"\<close>.
\<close>

theorem first_n_letters_follows_spec:
  assumes "1 \<le> n"
  shows "first_n_letters ext label n = encode_prefix_spec ext label (nat n)
       \<and> length (first_n_letters ext label n) = nat n
       \<and> first_n_letters ext (of_ascii ''ab'') 3 = of_ascii ''AB_''
       \<and> first_n_letters ext (of_ascii ''abcdef'') 3 = of_ascii ''ABC''"
proof -
  have n: "0 \<le> n" using assms by simp
  have a: "first_n_letters ext (of_ascii ''ab'') 3 = of_ascii ''AB_''"
    by (simp add: eval_defs)
  have b: "first_n_letters ext (of_ascii ''abcdef'') 3 = of_ascii ''ABC''"
    by (simp add: eval_defs)
  show ?thesis
    using first_n_letters_refines [OF n, of ext label] length_encode_prefix_spec [of ext label "nat n"] a b
    by simp
qed

theorem first_n_letters_follows_spec_witness:
  "first_n_letters (\<lambda>c. [c]) (of_ascii ''  tee '') 4 = of_ascii ''TEE_''
   \<and> length (first_n_letters (\<lambda>c. [c]) (of_ascii ''  tee '') 4) = 4
   \<and> first_n_letters (\<lambda>c. [c]) (of_ascii ''   '') 4 = of_ascii ''____''"
proof -
  have h: "(1::int) \<le> 4" by simp
  have "encode_prefix_spec (\<lambda>c. [c]) (of_ascii ''  tee '') (nat 4) = of_ascii ''TEE_''"
    by (simp add: eval_defs spec_defs)
  moreover have "encode_prefix_spec (\<lambda>c. [c]) (of_ascii ''   '') (nat 4) = of_ascii ''____''"
    by (simp add: eval_defs spec_defs)
  ultimately show ?thesis
    using first_n_letters_follows_spec [OF h, of "\<lambda>c. [c]" "of_ascii ''  tee ''"]
      first_n_letters_follows_spec [OF h, of "\<lambda>c. [c]" "of_ascii ''   ''"]
    by (simp add: of_ascii_def)
qed

section \<open>\<open>build_sku\<close>\<close>

lemma body_normalised:
  "(if length b < 9 then ljust b 9 pad else if length b > 9 then slice_to b 9 else b)
     = (if length b < 9 then right_pad b 9 else take 9 b)"
  by (simp add: ljust_def slice_to_def right_pad_def)

lemma build_sku_refines:
  assumes "size_v \<noteq> Some []"
  shows "build_sku ext productType collection productName color size_v =
     Inr (compose_sku_spec ext productType collection productName color size_v)"
proof -
  have w: "first_letters_of_words ext s 2 1 = encode_words_spec ext s 2 1" for s
    using first_letters_of_words_refines [of 1 ext s 2] by simp
  have p: "first_n_letters ext s 3 = encode_prefix_spec ext s 3" for s
    using first_n_letters_refines [of 3 ext s] by simp
  have c: "size_char_of size_v = Inr (size_character size_v)"
    using assms by (simp add: size_char_of_def size_character_def split: option.splits list.splits)
  show ?thesis
    unfolding build_sku_def compose_sku_spec_def Let_def w p c body_normalised by simp
qed

lemma length_body9: "length (if length b < 9 then right_pad b 9 else take 9 b) = 9"
  by (simp add: right_pad_def)

lemma length_compose_sku_spec:
  "length (compose_sku_spec ext productType collection productName color size_v) = 10"
proof -
  define body where "body = encode_words_spec ext productType 2 1
                 @ encode_words_spec ext collection 2 1
                 @ encode_prefix_spec ext productName 3
                 @ encode_words_spec ext color 2 1"
  have "compose_sku_spec ext productType collection productName color size_v
      = (if length body < 9 then right_pad body 9 else take 9 body) @ [size_character size_v]"
    unfolding compose_sku_spec_def Let_def body_def by (rule refl)
  then have "length (compose_sku_spec ext productType collection productName color size_v)
      = length (if length body < 9 then right_pad body 9 else take 9 body)
        + length [size_character size_v]"
    by (simp only: length_append)
  then show ?thesis by (simp only: length_body9) simp
qed

lemma build_sku_returns:
  assumes "size_v \<noteq> Some []"
  shows "\<exists>sku. build_sku ext productType collection productName color size_v = Inr sku
           \<and> length sku = 10"
  using build_sku_refines [OF assms] length_compose_sku_spec by blast

text \<open>
  C1. \<open>build_sku\<close> is meant to equal the reference composition for all four labels and
  every size, a string or absent. It does for every size but one: whenever the size is
  absent or has a first character, the result is the composition of the fields as the
  specification encodes them, the body padded or cut to 9 characters, and the size
  character. On the empty string as size the reference is defined and \<open>build_sku\<close> is
  not: it raises \<open>IndexError\<close>. \<open>compose_sku("Shirt", "Summer", "Polo", "Blue", "3")\<close>
  is \<open>"S_S_POLB_3"\<close>.
\<close>

theorem build_sku_reference_composition:
  "(size_v \<noteq> Some [] \<longrightarrow>
      build_sku ext productType collection productName color size_v
        = Inr (compose_sku_spec ext productType collection productName color size_v))
   \<and> build_sku ext productType collection productName color (Some [])
        \<noteq> Inr (compose_sku_spec ext productType collection productName color (Some []))
   \<and> build_sku ext (of_ascii ''Shirt'') (of_ascii ''Summer'') (of_ascii ''Polo'') (of_ascii ''Blue'')
        (Some (of_ascii ''3'')) = Inr (of_ascii ''S_S_POLB_3'')"
proof -
  have "build_sku ext (of_ascii ''Shirt'') (of_ascii ''Summer'') (of_ascii ''Polo'') (of_ascii ''Blue'')
        (Some (of_ascii ''3'')) = Inr (of_ascii ''S_S_POLB_3'')"
    by (simp add: eval_defs)
  moreover have "build_sku ext productType collection productName color (Some [])
        \<noteq> Inr (compose_sku_spec ext productType collection productName color (Some []))"
    by (simp add: build_sku_def size_char_of_def)
  ultimately show ?thesis using build_sku_refines by blast
qed

theorem build_sku_reference_composition_witness:
  "build_sku (\<lambda>c. [c]) (of_ascii ''Shirt Top'') (of_ascii ''Summer Line'') (of_ascii ''Tee'')
      (of_ascii ''Blue Sky'') None = Inr (of_ascii ''STSLTEEBS_'')
   \<and> build_sku (\<lambda>c. [c]) [] [] (of_ascii ''Widget'') [] (Some (of_ascii ''2''))
      = Inr (of_ascii ''____WID__2'')"
proof -
  have a: "compose_sku_spec (\<lambda>c. [c]) (of_ascii ''Shirt Top'') (of_ascii ''Summer Line'')
      (of_ascii ''Tee'') (of_ascii ''Blue Sky'') None = of_ascii ''STSLTEEBS_''"
    by (simp add: eval_defs spec_defs)
  have b: "compose_sku_spec (\<lambda>c. [c]) [] [] (of_ascii ''Widget'') [] (Some (of_ascii ''2''))
      = of_ascii ''____WID__2''"
    by (simp add: eval_defs spec_defs)
  have s: "Some (of_ascii ''2'') \<noteq> Some []" by (simp add: of_ascii_def)
  show ?thesis
    using build_sku_reference_composition [of None "\<lambda>c. [c]" "of_ascii ''Shirt Top''"
        "of_ascii ''Summer Line''" "of_ascii ''Tee''" "of_ascii ''Blue Sky''"]
      build_sku_reference_composition [of "Some (of_ascii ''2'')" "\<lambda>c. [c]" "[]"
        "[]" "of_ascii ''Widget''" "[]"] s
    by (simp add: a b)
qed

text \<open>
  C2. The encoders and the composer are meant never to fail on strings (size a string
  or absent). The encoders are total, and by \<open>build_sku_returns\<close> the composer returns
  for every size but one: on the empty string as size, \<open>build_sku\<close> raises
  \<open>IndexError\<close>, whatever the four labels are.
\<close>

theorem build_sku_empty_size_raises:
  "build_sku ext product_type collection product_name color (Some []) = Inl IndexError"
  by (simp add: build_sku_def size_char_of_def)

text \<open>
  C3. Every call of \<open>build_sku\<close> is meant to return a string of length 10. With the
  empty string as size no string of length 10 is returned; \<open>build_sku_returns\<close> gives
  length 10 for every other size.
\<close>

theorem build_sku_empty_size_no_sku:
  "\<not> (\<exists>sku. build_sku (\<lambda>c. [c]) (of_ascii ''Shirt'') (of_ascii ''Summer'') (of_ascii ''Polo'')
          (of_ascii ''Blue'') (Some (of_ascii '''')) = Inr sku \<and> length sku = 10)"
  by (simp add: build_sku_def size_char_of_def of_ascii_def)

section \<open>Width and alphabet of \<open>first_letters_of_words\<close>\<close>

lemma set_strip: "set (strip s) \<subseteq> set s"
proof
  fix x
  assume "x \<in> set (strip s)"
  then have "x \<in> set (dropWhile isspace (rev (dropWhile isspace s)))"
    by (simp add: strip_def)
  then have "x \<in> set (rev (dropWhile isspace s))"
    by (rule set_dropWhileD)
  then have "x \<in> set (dropWhile isspace s)"
    by simp
  then show "x \<in> set s"
    by (rule set_dropWhileD)
qed

lemma set_split_run: "w \<in> set (split_run cur s) \<Longrightarrow> set w \<subseteq> set cur \<union> set s"
proof (induction s arbitrary: cur)
  case Nil
  then show ?case by (simp split: if_splits)
next
  case (Cons c cs)
  then show ?case by (fastforce split: if_splits)
qed

lemma set_words_of: "w \<in> set (words_of label) \<Longrightarrow> set w \<subseteq> set label"
  using set_split_run [of w "[]" "strip label"] set_strip [of label]
  by (auto simp add: words_of_def py_split_def)

lemma length_upper:
  "\<forall>c\<in>set s. length (upper_cp ext c) = 1 \<Longrightarrow> length (upper ext s) = length s"
  by (induction s) (simp_all add: upper_def)

lemma set_upper: "x \<in> set (upper ext s) \<Longrightarrow> \<exists>c\<in>set s. x \<in> set (upper_cp ext c)"
  by (auto simp add: upper_def)

lemma length_word_group:
  assumes "0 \<le> le" and "\<forall>c\<in>set label. length (upper_cp ext c) = 1"
  shows "length (word_group ext (words_of label) le i) = nat le"
proof (cases "i < length (words_of label)")
  case True
  then have "set (words_of label ! i) \<subseteq> set label"
    by (simp add: set_words_of)
  then have "\<forall>c\<in>set (take (nat le) (words_of label ! i)). length (upper_cp ext c) = 1"
    using assms(2) by (meson in_set_takeD subsetD)
  then have "length (upper ext (take (nat le) (words_of label ! i))) \<le> nat le"
    by (simp add: length_upper)
  then show ?thesis using True assms(1)
    by (simp add: word_group_def slice_to_take ljust_def)
next
  case False
  then show ?thesis by (simp add: word_group_def repeat_def)
qed

lemma set_word_group:
  assumes "0 \<le> le" and "x \<in> set (word_group ext (words_of label) le i)"
  shows "x = pad \<or> (\<exists>c\<in>set label. x \<in> set (upper_cp ext c))"
proof (cases "i < length (words_of label)")
  case True
  then have sub: "set (words_of label ! i) \<subseteq> set label"
    by (simp add: set_words_of)
  from assms True have "x = pad \<or> x \<in> set (upper ext (take (nat le) (words_of label ! i)))"
    by (auto simp add: word_group_def slice_to_take ljust_def)
  then show ?thesis
  proof
    assume "x = pad" then show ?thesis by simp
  next
    assume "x \<in> set (upper ext (take (nat le) (words_of label ! i)))"
    then obtain c where "c \<in> set (take (nat le) (words_of label ! i))" "x \<in> set (upper_cp ext c)"
      using set_upper by blast
    then show ?thesis using sub by (meson in_set_takeD subsetD)
  qed
next
  case False
  then show ?thesis using assms by (auto simp add: word_group_def repeat_def)
qed

lemma length_concat_groups:
  "(\<forall>i\<in>set idxs. length (f i) = k) \<Longrightarrow> length (concat (map f idxs)) = length idxs * k"
  by (induction idxs) simp_all

lemma upper_cp_ascii_letter:
  "ascii_letter c \<Longrightarrow> upper_cp ext c = [x] \<Longrightarrow> ascii_upper x"
  by (auto simp add: ascii_letter_def ascii_upper_def upper_cp_def split: if_splits)

lemma upper_cp_ascii_single: "c < 128 \<Longrightarrow> length (upper_cp ext c) = 1"
  by (simp add: upper_cp_def)

text \<open>
  C5, as amended. For every label whose characters each have an uppercase form of one
  character (every ASCII label, by \<open>upper_cp_ascii_single\<close>) and every
  \<open>wordCount \<ge> 1\<close>, \<open>lettersEach \<ge> 1\<close>, the result has exactly
  \<open>wordCount * lettersEach\<close> characters, and each of them is the pad character or the
  uppercase form of a character of the label: an uppercase letter when that character is
  an ASCII letter, the character itself when it has no uppercase form (a digit, say).
\<close>

theorem first_letters_of_words_width_and_alphabet:
  assumes "1 \<le> wordCount" and "1 \<le> lettersEach"
    and "\<forall>c\<in>set label. length (upper_cp ext c) = 1"
  shows "length (first_letters_of_words ext label wordCount lettersEach)
           = nat wordCount * nat lettersEach
       \<and> (\<forall>x\<in>set (first_letters_of_words ext label wordCount lettersEach).
            x = pad \<or> (\<exists>c\<in>set label. upper_cp ext c = [x] \<and> (ascii_letter c \<longrightarrow> ascii_upper x)))"
proof -
  have le: "0 \<le> lettersEach" using assms(2) by simp
  have len: "length (first_letters_of_words ext label wordCount lettersEach)
           = nat wordCount * nat lettersEach"
    using length_concat_groups [of "py_range wordCount" "word_group ext (words_of label) lettersEach" "nat lettersEach"]
      length_word_group [OF le assms(3)]
    by (simp add: first_letters_of_words_all_groups py_range_def)
  have chars: "x = pad \<or> (\<exists>c\<in>set label. upper_cp ext c = [x] \<and> (ascii_letter c \<longrightarrow> ascii_upper x))"
    if "x \<in> set (first_letters_of_words ext label wordCount lettersEach)" for x
  proof -
    from that obtain i where "x \<in> set (word_group ext (words_of label) lettersEach i)"
      by (auto simp add: first_letters_of_words_all_groups)
    then have "x = pad \<or> (\<exists>c\<in>set label. x \<in> set (upper_cp ext c))"
      by (rule set_word_group [OF le])
    then show ?thesis
    proof
      assume "x = pad" then show ?thesis by simp
    next
      assume "\<exists>c\<in>set label. x \<in> set (upper_cp ext c)"
      then obtain c where c: "c \<in> set label" "x \<in> set (upper_cp ext c)" by blast
      with assms(3) have "length (upper_cp ext c) = 1" by blast
      with c(2) have "upper_cp ext c = [x]"
        by (cases "upper_cp ext c") simp_all
      with c(1) show ?thesis using upper_cp_ascii_letter by blast
    qed
  qed
  show ?thesis using len chars by blast
qed

theorem first_letters_of_words_width_and_alphabet_witness:
  "length (first_letters_of_words (\<lambda>c. [c]) (of_ascii ''red 42'') 2 2) = 4
   \<and> (\<exists>c. c \<in> set (of_ascii ''red 42'') \<and> upper_cp (\<lambda>c. [c]) c = [82] \<and> ascii_upper 82)"
proof -
  have h: "(1::int) \<le> 2" by simp
  have u: "\<forall>c\<in>set (of_ascii ''red 42''). length (upper_cp (\<lambda>c. [c]) c) = 1"
    by (simp add: of_ascii_def upper_cp_def)
  have out: "82 \<in> set (first_letters_of_words (\<lambda>c. [c]) (of_ascii ''red 42'') 2 2)"
    by (simp add: eval_defs)
  have r: "ascii_letter 114" by (simp add: ascii_letter_def)
  have up: "upper_cp (\<lambda>c. [c]) c = [82] \<Longrightarrow> c \<in> set (of_ascii ''red 42'') \<Longrightarrow> c = 114" for c
    by (auto simp add: of_ascii_def upper_cp_def)
  from first_letters_of_words_width_and_alphabet [OF h h u]
  have len: "length (first_letters_of_words (\<lambda>c. [c]) (of_ascii ''red 42'') 2 2) = 4"
    and "\<forall>x\<in>set (first_letters_of_words (\<lambda>c. [c]) (of_ascii ''red 42'') 2 2).
            x = pad \<or> (\<exists>c\<in>set (of_ascii ''red 42''). upper_cp (\<lambda>c. [c]) c = [x] \<and> (ascii_letter c \<longrightarrow> ascii_upper x))"
    by simp_all
  with out have "82 = pad \<or> (\<exists>c\<in>set (of_ascii ''red 42''). upper_cp (\<lambda>c. [c]) c = [82] \<and> (ascii_letter c \<longrightarrow> ascii_upper 82))"
    by blast
  then obtain c where "c \<in> set (of_ascii ''red 42'')" "upper_cp (\<lambda>c. [c]) c = [82]" "ascii_letter c \<longrightarrow> ascii_upper 82"
    by (auto simp add: pad_def)
  then show ?thesis using len up r by blast
qed

text \<open>
  C5, as stated, fails: \<open>encode_words("42", 2, 1) = "4_"\<close>, and \<open>'4'\<close> is neither an
  uppercase character nor the pad character.
\<close>

theorem first_letters_of_words_digit_counterexample:
  "first_letters_of_words (\<lambda>c. [c]) (of_ascii ''42'') 2 1 = of_ascii ''4_''
   \<and> \<not> (\<forall>x\<in>set (first_letters_of_words (\<lambda>c. [c]) (of_ascii ''42'') 2 1). ascii_upper x \<or> x = pad)"
  by (simp add: eval_defs ascii_upper_def)

text \<open>
  The width itself is lost on a character whose uppercase form is longer: the slice is
  taken before \<open>upper()\<close>, so \<open>'\<ss>'\<close> (U+00DF) gives \<open>"SS"\<close> in a group of width 1.
\<close>

lemma first_letters_of_words_sharp_s:
  "first_letters_of_words ext [223] 2 1 = [83, 83, 95]"
  by (simp add: eval_defs)

section \<open>The handlers\<close>

lemmas handler_defs = generate_sku_post_def create_data_post_def resolve_row_def name_or_empty_def
  dangling_def field_text_def insert_record_def insert_vocabulary_def next_id_def ascii_int_def
  empty_store_def list_vocabulary_def list_recent_def vocabulary_def categories_def int64_def
  bindable_def

lemma resolve_row_bindable:
  assumes "bindable py_int field"
  shows "\<exists>x. resolve_row py_int uid rows field = Inr x"
  using assms
  by (auto simp add: bindable_def resolve_row_def split: option.splits)

lemma resolve_row_dangling:
  assumes "dangling py_int uid rows s" and "resolve_row py_int uid rows (Some s) = Inr x"
  shows "x = None"
proof (cases "py_int s")
  case None
  then show ?thesis using assms(2) by (simp add: resolve_row_def split: if_splits)
next
  case (Some i)
  with assms(1) have "\<forall>r\<in>set rows. \<not> (vr_id r = i \<and> vr_user_id r = uid)"
    by (auto simp add: dangling_def list_all_iff)
  then have "find (\<lambda>r. vr_id r = i \<and> vr_user_id r = uid) rows = None"
    by (simp add: find_None_iff)
  then show ?thesis using Some assms(2) by (simp add: resolve_row_def split: if_splits)
qed

lemma resolve_row_field_text:
  assumes "resolve_row py_int uid rows field = Inr x"
  shows "name_or_empty x = field_text py_int uid rows field"
proof (cases field)
  case None
  then show ?thesis using assms by (auto simp add: field_text_def resolve_row_def name_or_empty_def)
next
  case (Some s)
  show ?thesis
  proof (cases "dangling py_int uid rows s")
    case True
    then have "x = None" using assms Some resolve_row_dangling by blast
    then show ?thesis using True Some by (simp add: field_text_def name_or_empty_def)
  next
    case False
    then show ?thesis using assms Some by (simp add: field_text_def)
  qed
qed

text \<open>
  Where the ids can be bound, the product name is not blank and the size is absent or
  not empty, the composer is called with \<open>field_text\<close> for each vocabulary field, that
  is with the empty string for a dangling reference, and one record with the SKU, owned
  by the requesting user, is appended to the store.
\<close>

lemma generate_sku_post_dangling_reference:
  assumes "strip (case sf_product_name form of None \<Rightarrow> [] | Some v \<Rightarrow> v) = name"
    and "name \<noteq> []"
    and "sf_size form \<noteq> Some []"
    and "bindable py_int (sf_product_type form)"
    and "bindable py_int (sf_collection form)"
    and "bindable py_int (sf_color form)"
  shows "\<exists>sku. build_sku ext (field_text py_int uid (product_types st) (sf_product_type form))
                  (field_text py_int uid (collections st) (sf_collection form))
                  name
                  (field_text py_int uid (colors st) (sf_color form))
                  (sf_size form) = Inr sku
           \<and> generate_sku_post ext py_int uid form st =
               (Success_generated sku,
                insert_record \<lparr>sr_id = next_id (map sr_id (sku_records st)), sr_sku = sku,
                   sr_product_name = name, sr_user_id = uid\<rparr> st)"
proof -
  obtain p where p: "resolve_row py_int uid (product_types st) (sf_product_type form) = Inr p"
    using resolve_row_bindable [OF assms(4)] by blast
  obtain c where c: "resolve_row py_int uid (collections st) (sf_collection form) = Inr c"
    using resolve_row_bindable [OF assms(5)] by blast
  obtain k where k: "resolve_row py_int uid (colors st) (sf_color form) = Inr k"
    using resolve_row_bindable [OF assms(6)] by blast
  obtain sku where sku: "build_sku ext (name_or_empty p) (name_or_empty c) name (name_or_empty k)
      (sf_size form) = Inr sku"
    using build_sku_returns [OF assms(3)] by blast
  have "generate_sku_post ext py_int uid form st =
     (Success_generated sku,
      insert_record \<lparr>sr_id = next_id (map sr_id (sku_records st)), sr_sku = sku,
         sr_product_name = name, sr_user_id = uid\<rparr> st)"
    using assms(1,2) p c k sku by (simp add: generate_sku_post_def insert_record_def Let_def)
  then show ?thesis
    using sku resolve_row_field_text [OF p] resolve_row_field_text [OF c]
      resolve_row_field_text [OF k] by simp
qed

text \<open>
  C7. A request whose reference names no row is meant not to fail: the composer gets the
  empty string for the field and a record is stored. The id \<open>9223372036854775808\<close> is
  well-formed and names no row; the database cannot bind it, the \<open>OverflowError\<close> is not
  caught, the request fails and nothing is stored.
\<close>

theorem generate_sku_post_unbindable_id:
  "ascii_int (of_ascii ''9223372036854775808'') = Some 9223372036854775808
   \<and> find (\<lambda>r. vr_id r = 9223372036854775808) (product_types st1) = None
   \<and> generate_sku_post (\<lambda>c. [c]) ascii_int 1 form2 st1 = (Unhandled OverflowError, st1)"
  by (simp add: form2_def st1_def handler_defs eval_defs)

text \<open>
  The same request with ids that can be bound: the three references are dangling, the
  composer gets three empty strings, and the record is stored.
\<close>

lemma generate_sku_post_dangling_example:
  "dangling ascii_int 1 (product_types st1) (of_ascii ''1'')
   \<and> dangling ascii_int 1 (collections st1) (of_ascii ''x1'')
   \<and> dangling ascii_int 1 (colors st1) (of_ascii ''7'')
   \<and> generate_sku_post (\<lambda>c. [c]) ascii_int 1 form1 st1 =
       (Success_generated (of_ascii ''____POL__3''),
        insert_record \<lparr>sr_id = 1, sr_sku = of_ascii ''____POL__3'',
           sr_product_name = of_ascii ''Polo'', sr_user_id = 1\<rparr> st1)"
  by (simp add: form1_def st1_def handler_defs eval_defs)

text \<open>
  Two more requests with a dangling reference that store nothing: a blank product name
  is answered with the warning before any id is resolved, and with the empty string as
  size the exception of \<open>build_sku\<close> leaves the handler.
\<close>

lemma generate_sku_post_blank_name:
  "generate_sku_post (\<lambda>c. [c]) ascii_int 1
        \<lparr>sf_product_name = Some (of_ascii ''  ''), sf_product_type = Some (of_ascii ''x1''),
          sf_collection = None, sf_color = None, sf_size = Some (of_ascii ''3'')\<rparr> empty_store
       = (Warning_enter_product_name, empty_store)"
  by (simp add: handler_defs eval_defs)

lemma generate_sku_post_empty_size:
  "generate_sku_post (\<lambda>c. [c]) ascii_int 1
        \<lparr>sf_product_name = Some (of_ascii ''Polo''), sf_product_type = Some (of_ascii ''x1''),
          sf_collection = None, sf_color = None, sf_size = Some []\<rparr> empty_store
       = (Unhandled IndexError, empty_store)"
  by (simp add: handler_defs eval_defs)

section \<open>Vocabulary inserts\<close>

lemma categories_distinct:
  "of_ascii ''product_type'' \<noteq> of_ascii ''collection''"
  "of_ascii ''product_type'' \<noteq> of_ascii ''color''"
  "of_ascii ''collection'' \<noteq> of_ascii ''color''"
  by (simp_all add: of_ascii_def)

lemma vocabulary_insert_vocabulary:
  "category \<in> set categories \<Longrightarrow>
   vocabulary category (insert_vocabulary category r st) = vocabulary category st @ [r]"
  using categories_distinct
  by (auto simp add: categories_def vocabulary_def insert_vocabulary_def)

text \<open>
  C8. For an insert request in one of the three categories: when the label is empty
  after trimming, the request is answered with the warning that stands for the
  validation error and the store is unchanged; otherwise one row holding the trimmed
  label, owned by the requesting user, is appended to the table of that category.
\<close>

theorem create_data_post_validates_label:
  assumes "category \<in> set categories"
    and "cf_what form = Some category"
    and "strip (case cf_value form of None \<Rightarrow> [] | Some v \<Rightarrow> v) = label"
  shows "(label = [] \<longrightarrow> create_data_post uid form st = (Warning_enter_value, st))
       \<and> (label \<noteq> [] \<longrightarrow>
            (\<exists>r. vr_name r = label \<and> vr_user_id r = uid
                \<and> create_data_post uid form st = (Success_added, insert_vocabulary category r st)
                \<and> vocabulary category (snd (create_data_post uid form st))
                    = vocabulary category st @ [r]))"
proof (cases "label = []")
  case True
  then show ?thesis using assms(3) by (simp add: create_data_post_def)
next
  case False
  define r where "r = \<lparr>vr_id = next_id (map vr_id (vocabulary category st)), vr_name = label, vr_user_id = uid\<rparr>"
  have post: "create_data_post uid form st = (Success_added, insert_vocabulary category r st)"
    using assms False categories_distinct
    by (auto simp add: categories_def create_data_post_def insert_vocabulary_def vocabulary_def r_def)
  have "vocabulary category (snd (create_data_post uid form st)) = vocabulary category st @ [r]"
    using post vocabulary_insert_vocabulary [OF assms(1)] by simp
  moreover have "vr_name r = label" "vr_user_id r = uid" by (simp_all add: r_def)
  ultimately show ?thesis using False post by blast
qed

theorem create_data_post_validates_label_witness:
  "create_data_post 1 \<lparr>cf_what = Some (of_ascii ''color''), cf_value = Some (of_ascii ''   '')\<rparr> st1
     = (Warning_enter_value, st1)
   \<and> (\<exists>r. vr_name r = of_ascii ''Sky Blue'' \<and> vr_user_id r = 1
         \<and> create_data_post 1 cform1 st1 = (Success_added, insert_vocabulary (of_ascii ''color'') r st1)
         \<and> vocabulary (of_ascii ''color'') (snd (create_data_post 1 cform1 st1))
             = vocabulary (of_ascii ''color'') st1 @ [r])"
proof -
  have c: "of_ascii ''color'' \<in> set categories" by (simp add: categories_def)
  have l1: "strip (case cf_value \<lparr>cf_what = Some (of_ascii ''color''), cf_value = Some (of_ascii ''   '')\<rparr>
              of None \<Rightarrow> [] | Some v \<Rightarrow> v) = []"
    by (simp add: eval_defs)
  have l2: "strip (case cf_value cform1 of None \<Rightarrow> [] | Some v \<Rightarrow> v) = of_ascii ''Sky Blue''"
    by (simp add: cform1_def eval_defs)
  have ne: "of_ascii ''Sky Blue'' \<noteq> []" by (simp add: of_ascii_def)
  show ?thesis
    using create_data_post_validates_label [OF c _ l1, of 1 st1]
      create_data_post_validates_label [OF c _ l2, of 1 st1] ne
    by (simp add: cform1_def)
qed

section \<open>Scoping of the listings\<close>

lemma list_vocabulary_owner: "r \<in> set (list_vocabulary a rows) \<Longrightarrow> vr_user_id r = a"
  by (simp add: list_vocabulary_def)

lemma list_recent_owner: "r \<in> set (list_recent a st) \<Longrightarrow> sr_user_id r = a"
proof -
  assume "r \<in> set (list_recent a st)"
  then have "r \<in> set (sort_key (\<lambda>r. - sr_id r) (filter (\<lambda>r. sr_user_id r = a) (sku_records st)))"
    unfolding list_recent_def by (rule in_set_takeD)
  then show ?thesis by simp
qed

lemma create_data_post_tables:
  "\<exists>added. (\<forall>r\<in>set added. vr_user_id r = b)
     \<and> vocabulary category (snd (create_data_post b form st)) = vocabulary category st @ added"
proof -
  have "vocabulary category (snd (create_data_post b form st)) = vocabulary category st
      \<or> (\<exists>r. vr_user_id r = b
            \<and> vocabulary category (snd (create_data_post b form st)) = vocabulary category st @ [r])"
    using categories_distinct
    by (auto simp add: create_data_post_def vocabulary_def Let_def)
  then show ?thesis
  proof
    assume "vocabulary category (snd (create_data_post b form st)) = vocabulary category st"
    then have "(\<forall>r\<in>set []. vr_user_id r = b)
       \<and> vocabulary category (snd (create_data_post b form st)) = vocabulary category st @ []"
      by simp
    then show ?thesis by blast
  next
    assume "\<exists>r. vr_user_id r = b
            \<and> vocabulary category (snd (create_data_post b form st)) = vocabulary category st @ [r]"
    then obtain r where "vr_user_id r = b"
      "vocabulary category (snd (create_data_post b form st)) = vocabulary category st @ [r]"
      by blast
    then have "(\<forall>x\<in>set [r]. vr_user_id x = b)
       \<and> vocabulary category (snd (create_data_post b form st)) = vocabulary category st @ [r]"
      by simp
    then show ?thesis by blast
  qed
qed

lemma create_data_post_sku_records:
  "sku_records (snd (create_data_post b form st)) = sku_records st"
  by (simp add: create_data_post_def Let_def)

lemma generate_sku_post_tables:
  "vocabulary category (snd (generate_sku_post ext py_int b form st)) = vocabulary category st"
  by (simp add: generate_sku_post_def vocabulary_def Let_def split: sum.splits)

lemma generate_sku_post_new_record:
  "sku_records (snd (generate_sku_post ext py_int b form st)) = sku_records st
   \<or> (\<exists>sku. sku_records (snd (generate_sku_post ext py_int b form st)) = sku_records st @
        [\<lparr>sr_id = next_id (map sr_id (sku_records st)), sr_sku = sku,
          sr_product_name = strip (case sf_product_name form of None \<Rightarrow> [] | Some v \<Rightarrow> v),
          sr_user_id = b\<rparr>])"
  by (simp add: generate_sku_post_def Let_def split: sum.splits)

lemma generate_sku_post_sku_records:
  "\<exists>added. (\<forall>r\<in>set added. sr_user_id r = b)
     \<and> sku_records (snd (generate_sku_post ext py_int b form st)) = sku_records st @ added"
  using generate_sku_post_new_record [of ext py_int b form st]
proof
  assume "sku_records (snd (generate_sku_post ext py_int b form st)) = sku_records st"
  then have "(\<forall>x\<in>set []. sr_user_id x = b)
     \<and> sku_records (snd (generate_sku_post ext py_int b form st)) = sku_records st @ []"
    by simp
  then show ?thesis by blast
next
  assume "\<exists>sku. sku_records (snd (generate_sku_post ext py_int b form st)) = sku_records st @
        [\<lparr>sr_id = next_id (map sr_id (sku_records st)), sr_sku = sku,
          sr_product_name = strip (case sf_product_name form of None \<Rightarrow> [] | Some v \<Rightarrow> v),
          sr_user_id = b\<rparr>]"
  then obtain sku where s: "sku_records (snd (generate_sku_post ext py_int b form st)) = sku_records st @
        [\<lparr>sr_id = next_id (map sr_id (sku_records st)), sr_sku = sku,
          sr_product_name = strip (case sf_product_name form of None \<Rightarrow> [] | Some v \<Rightarrow> v),
          sr_user_id = b\<rparr>]"
    by blast
  define r where "r = \<lparr>sr_id = next_id (map sr_id (sku_records st)), sr_sku = sku,
          sr_product_name = strip (case sf_product_name form of None \<Rightarrow> [] | Some v \<Rightarrow> v),
          sr_user_id = b\<rparr>"
  have "sr_user_id r = b"
    "sku_records (snd (generate_sku_post ext py_int b form st)) = sku_records st @ [r]"
    using s by (simp_all add: r_def)
  then have "(\<forall>x\<in>set [r]. sr_user_id x = b)
     \<and> sku_records (snd (generate_sku_post ext py_int b form st)) = sku_records st @ [r]"
    by simp
  then show ?thesis by blast
qed

lemma list_recent_append_other:
  assumes "a \<noteq> b" and "\<forall>r\<in>set added. sr_user_id r = b"
    and "sku_records st' = sku_records st @ added"
  shows "list_recent a st' = list_recent a st"
proof -
  have "filter (\<lambda>r. sr_user_id r = a) added = []"
    using assms(1,2) by (auto simp add: filter_empty_conv)
  then show ?thesis using assms(3) by (simp add: list_recent_def)
qed

lemma list_vocabulary_append_other:
  assumes "a \<noteq> b" and "\<forall>r\<in>set added. vr_user_id r = b"
  shows "list_vocabulary a (rows @ added) = list_vocabulary a rows"
proof -
  have "filter (\<lambda>r. vr_user_id r = a) added = []"
    using assms by (auto simp add: filter_empty_conv)
  then show ?thesis by (simp add: list_vocabulary_def)
qed

text \<open>
  C9. For distinct users \<open>a\<close> and \<open>b\<close> and every store (reachable or not): every row
  that a vocabulary listing or the recent-records listing returns to \<open>a\<close> is owned by
  \<open>a\<close>, never by \<open>b\<close>; and no request of \<open>b\<close>, insert or generation, changes any
  listing of \<open>a\<close>, so nothing that \<open>b\<close> creates is ever returned to \<open>a\<close>.
\<close>

theorem listings_scoped_to_user:
  assumes "a \<noteq> b"
  shows "(\<forall>r\<in>set (list_vocabulary a (vocabulary category st)). vr_user_id r = a \<and> vr_user_id r \<noteq> b)
       \<and> (\<forall>r\<in>set (list_recent a st). sr_user_id r = a \<and> sr_user_id r \<noteq> b)
       \<and> list_vocabulary a (vocabulary category (snd (create_data_post b cform st)))
           = list_vocabulary a (vocabulary category st)
       \<and> list_recent a (snd (create_data_post b cform st)) = list_recent a st
       \<and> list_vocabulary a (vocabulary category (snd (generate_sku_post ext py_int b sform st)))
           = list_vocabulary a (vocabulary category st)
       \<and> list_recent a (snd (generate_sku_post ext py_int b sform st)) = list_recent a st"
proof -
  have v: "\<forall>r\<in>set (list_vocabulary a (vocabulary category st)). vr_user_id r = a \<and> vr_user_id r \<noteq> b"
    using assms list_vocabulary_owner by blast
  have s: "\<forall>r\<in>set (list_recent a st). sr_user_id r = a \<and> sr_user_id r \<noteq> b"
    using assms list_recent_owner by blast
  obtain added where "\<forall>r\<in>set added. vr_user_id r = b"
    "vocabulary category (snd (create_data_post b cform st)) = vocabulary category st @ added"
    using create_data_post_tables by blast
  then have cv: "list_vocabulary a (vocabulary category (snd (create_data_post b cform st)))
           = list_vocabulary a (vocabulary category st)"
    using list_vocabulary_append_other [OF assms] by simp
  have cs: "list_recent a (snd (create_data_post b cform st)) = list_recent a st"
    by (simp add: list_recent_def create_data_post_sku_records)
  have gv: "list_vocabulary a (vocabulary category (snd (generate_sku_post ext py_int b sform st)))
           = list_vocabulary a (vocabulary category st)"
    by (simp add: generate_sku_post_tables)
  obtain recs where "\<forall>r\<in>set recs. sr_user_id r = b"
    "sku_records (snd (generate_sku_post ext py_int b sform st)) = sku_records st @ recs"
    using generate_sku_post_sku_records by blast
  then have gs: "list_recent a (snd (generate_sku_post ext py_int b sform st)) = list_recent a st"
    using list_recent_append_other [OF assms] by blast
  show ?thesis using v s cv cs gv gs by blast
qed

theorem listings_scoped_to_user_witness:
  "list_vocabulary 1 (vocabulary (of_ascii ''color'') (snd (create_data_post 2 cform1 st1)))
       = list_vocabulary 1 (vocabulary (of_ascii ''color'') st1)
   \<and> list_recent 1 (snd (generate_sku_post (\<lambda>c. [c]) ascii_int 2 form1 st1)) = list_recent 1 st1
   \<and> list_vocabulary 1 (vocabulary (of_ascii ''product_type'') st1) = []
   \<and> list_vocabulary 2 (vocabulary (of_ascii ''product_type'') st1) = product_types st1"
proof -
  have h: "(1::int) \<noteq> 2" by simp
  have "list_vocabulary 1 (vocabulary (of_ascii ''product_type'') st1) = []"
    by (simp add: st1_def vocabulary_def list_vocabulary_def)
  moreover have "list_vocabulary 2 (vocabulary (of_ascii ''product_type'') st1) = product_types st1"
    by (simp add: st1_def vocabulary_def list_vocabulary_def)
  ultimately show ?thesis
    using listings_scoped_to_user [OF h, of "of_ascii ''color''" st1 cform1 "\<lambda>c. [c]" ascii_int form1]
    by simp
qed

end
